theory Spec2Isabelle
  imports Main
begin

section \<open>Data model\<close>

text \<open>
  The enum \<open>LogLevel\<close> is imported by the logger factory from the module
  \<open>LoggerConfiguration\<close>. Its members are the five levels used by the leveled
  methods of \<open>DefaultLoggerInstance\<close>. The numeric value that the enum gives to
  each member is not fixed here: every function that compares levels takes the
  encoding \<open>enc\<close> as an argument.
\<close>

datatype LogLevel = ERROR | WARN | INFO | DEBUG | TRACE


text \<open>
  Modelled from the spec: the reverse numeric ordering of the enum, in which the
  most severe level has the smallest number.
\<close>

fun reverse_numeric :: "LogLevel \<Rightarrow> nat" where
  "reverse_numeric ERROR = 0"
| "reverse_numeric WARN = 1"
| "reverse_numeric INFO = 2"
| "reverse_numeric DEBUG = 3"
| "reverse_numeric TRACE = 4"


text \<open>
  JavaScript values that reach the \<open>metadata\<close> parameters: \<open>undefined\<close>,
  \<open>null\<close>, an \<open>Error\<close> instance, or a plain object (a bag from keys to values).
\<close>

datatype val = VNum int | VStr string | VBool bool

type_synonym bag = "string \<rightharpoonup> val"

datatype JsError = JsError string

datatype jsvalue = JUndefined | JNull | JError JsError | JObject bag

text \<open>
  Object spread \<open>{ ...v }\<close>: \<open>undefined\<close> and \<open>null\<close> contribute nothing, a plain
  object contributes its own enumerable properties, and an \<open>Error\<close> created by
  \<open>new Error(message)\<close> has no own enumerable property.
\<close>

fun spread :: "jsvalue \<Rightarrow> bag" where
  "spread JUndefined = Map.empty"
| "spread JNull = Map.empty"
| "spread (JError e) = Map.empty"
| "spread (JObject m) = m"

fun instanceof_Error :: "jsvalue \<Rightarrow> bool" where
  "instanceof_Error (JError e) = True"
| "instanceof_Error _ = False"

datatype LoggerImplementation = Impl nat

record LoggerBinding =
  getVendor :: string
  getVersion :: string
  getLoggerImplementation :: LoggerImplementation

text \<open>One invocation of \<open>impl.log(level, group, name, message, error, metadata)\<close>.\<close>

record log_call =
  c_impl :: LoggerImplementation
  c_level :: LogLevel
  c_group :: string
  c_name :: string
  c_message :: string
  c_error :: "JsError option"
  c_metadata :: bag

type_synonym ref = nat

record DefaultLoggerInstance =
  impl :: "LoggerImplementation option"
  name :: string
  group :: string
  commonMetadata :: jsvalue
  logLevel :: LogLevel


section \<open>Level configuration registry\<close>

text \<open>
  Modelled from the spec: the module \<open>LoggerConfiguration\<close> is not part of the
  sources at hand. A configuration entry is addressed by a selector: an exact
  (group, name) pair, a group, or the global scope; these are the three shapes of
  the optional arguments \<open>(group?, name?)\<close>.
\<close>

datatype selector = Exact string string | Group string | Global

text \<open>
  Modelled from the spec: the registry state of \<open>LoggerConfiguration\<close>. It holds
  the level overrides and the registered change callbacks in registration order.
  The only callbacks the logger factory registers are the closures
  \<open>(event) => this.logLevel = event.logLevel\<close> of a logger instance, so a callback
  is represented by the reference of the instance it assigns to.
\<close>

record LoggerConfiguration =
  overrides :: "selector \<rightharpoonup> LogLevel"
  listeners :: "(selector \<times> ref) list"

text \<open>
  Modelled from the spec: \<open>LoggerConfiguration.getLogLevel(group, name)\<close> resolves
  the exact override, then the group override, then the global default, and
  falls back to the built-in default INFO.
\<close>

definition getLogLevel :: "LoggerConfiguration \<Rightarrow> string \<Rightarrow> string \<Rightarrow> LogLevel" where
  "getLogLevel cfg g n =
     (case overrides cfg (Exact g n) of
        Some l \<Rightarrow> l
      | None \<Rightarrow>
          (case overrides cfg (Group g) of
             Some l \<Rightarrow> l
           | None \<Rightarrow>
               (case overrides cfg Global of
                  Some l \<Rightarrow> l
                | None \<Rightarrow> INFO)))"

text \<open>
  Modelled from the spec: \<open>LoggerConfiguration.onLogLevelChanged(callback, group?, name?)\<close>
  appends the callback to the registered ones.
\<close>

definition onLogLevelChanged :: "ref \<Rightarrow> selector \<Rightarrow> LoggerConfiguration \<Rightarrow> LoggerConfiguration" where
  "onLogLevelChanged this sel cfg = cfg\<lparr>listeners := listeners cfg @ [(sel, this)]\<rparr>"

section \<open>Process state\<close>

datatype error = No_Logger_Binding_found

text \<open>
  The static fields of \<open>LoggerFactory\<close>, the module constant \<open>BINDINGS\<close>, the
  objects allocated by \<open>new DefaultLoggerInstance\<close> (a reference is the index of
  the object in \<open>heap\<close>), the registry, and what the external collaborators see:
  \<open>discoverable\<close> is the list that \<open>new LoggerBindings().getBindings()\<close> returns
  when it is evaluated, \<open>impl_requests\<close> counts the calls of
  \<open>getLoggerImplementation()\<close>, and \<open>impl_calls\<close> lists the calls received by
  the \<open>log\<close> method of the implementations, oldest first.
\<close>

record world =
  discoverable :: "LoggerBinding list"
  BINDINGS :: "LoggerBinding list"
  LOGGER :: "LoggerImplementation option"
  ROOT_LOGGER :: "ref option"
  INITIALIZED :: bool
  LOGGER_INSTANCE_CACHE :: "string \<rightharpoonup> ref"
  heap :: "DefaultLoggerInstance list"
  config :: LoggerConfiguration
  impl_requests :: nat
  impl_calls :: "log_call list"

text \<open>\<open>const BINDING = BINDINGS[0]\<close>: \<open>undefined\<close> when the array is empty.\<close>

definition BINDING :: "world \<Rightarrow> LoggerBinding option" where
  "BINDING w = (case BINDINGS w of [] \<Rightarrow> None | b # _ \<Rightarrow> Some b)"

text \<open>
  Loading the module evaluates \<open>new LoggerBindings().getBindings()\<close> once and
  initialises the static fields.
\<close>

definition module_load :: "LoggerBinding list \<Rightarrow> world" where
  "module_load ds =
     \<lparr>discoverable = ds, BINDINGS = ds, LOGGER = None, ROOT_LOGGER = None,
      INITIALIZED = False, LOGGER_INSTANCE_CACHE = Map.empty, heap = [],
      config = \<lparr>overrides = Map.empty, listeners = []\<rparr>,
      impl_requests = 0, impl_calls = []\<rparr>"

text \<open>
  Modelled from the spec: \<open>LoggerConfiguration.setLogLevel(level, group?, name?)\<close>
  stores the override for the selector and invokes, in registration order, the
  callbacks registered for that selector with the new level.
\<close>

definition invoke_listener ::
  "LogLevel \<Rightarrow> selector \<Rightarrow> DefaultLoggerInstance list \<Rightarrow> selector \<times> ref \<Rightarrow> DefaultLoggerInstance list" where
  "invoke_listener l sel h cb =
     (if fst cb = sel then h[snd cb := (h ! snd cb)\<lparr>logLevel := l\<rparr>] else h)"

definition setLogLevel :: "LogLevel \<Rightarrow> selector \<Rightarrow> world \<Rightarrow> world" where
  "setLogLevel l sel w =
     w\<lparr>config := (config w)\<lparr>overrides := (overrides (config w))(sel \<mapsto> l)\<rparr>,
       heap := foldl (invoke_listener l sel) (heap w) (listeners (config w))\<rparr>"

section \<open>Logger instance\<close>

text \<open>
  The constructor allocates the object and registers its three callbacks: for
  its exact key, for its group, and globally.
\<close>

definition new_DefaultLoggerInstance ::
  "string \<Rightarrow> string \<Rightarrow> LogLevel \<Rightarrow> LoggerImplementation option \<Rightarrow> world \<Rightarrow> ref \<times> world" where
  "new_DefaultLoggerInstance name' group' logLevel' impl' w =
     (let this = length (heap w);
          w1 = w\<lparr>heap := heap w @
                 [\<lparr>impl = impl', name = name', group = group',
                   commonMetadata = JUndefined, logLevel = logLevel'\<rparr>]\<rparr>;
          w2 = w1\<lparr>config := onLogLevelChanged this (Exact group' name') (config w1)\<rparr>;
          w3 = w2\<lparr>config := onLogLevelChanged this (Group group') (config w2)\<rparr>;
          w4 = w3\<lparr>config := onLogLevelChanged this Global (config w3)\<rparr>
      in (this, w4))"

definition getLogLevel_inst :: "ref \<Rightarrow> world \<Rightarrow> LogLevel" where
  "getLogLevel_inst this w = logLevel (heap w ! this)"

definition setMetadata :: "ref \<Rightarrow> jsvalue \<Rightarrow> world \<Rightarrow> world" where
  "setMetadata this commonMetadata' w =
     w\<lparr>heap := (heap w)[this := (heap w ! this)\<lparr>commonMetadata := commonMetadata'\<rparr>]\<rparr>"

text \<open>
  What the promise returned by an \<open>async\<close> log method settles to: it fulfils with
  \<open>undefined\<close> when nothing is forwarded, it follows the value returned by
  \<open>impl.log\<close> for the recorded call when the call is forwarded, and it rejects
  with a \<open>TypeError\<close> when \<open>this.impl\<close> is \<open>undefined\<close>.
\<close>

datatype log_result = Fulfilled_undefined | Delegated log_call | Rejected_TypeError

text \<open>The member call \<open>this.impl.log(...)\<close> with the remaining arguments \<open>args\<close>.\<close>

definition impl_log ::
  "LoggerImplementation option \<Rightarrow> (LoggerImplementation \<Rightarrow> log_call) \<Rightarrow> world \<Rightarrow> log_result \<times> world" where
  "impl_log i args w =
     (case i of
        None \<Rightarrow> (Rejected_TypeError, w)
      | Some target \<Rightarrow> (Delegated (args target), w\<lparr>impl_calls := impl_calls w @ [args target]\<rparr>))"

definition log ::
  "(LogLevel \<Rightarrow> nat) \<Rightarrow> ref \<Rightarrow> LogLevel \<Rightarrow> string \<Rightarrow> jsvalue \<Rightarrow> JsError option \<Rightarrow> world
     \<Rightarrow> log_result \<times> world" where
  "log enc this logLevel' message metadata error' w =
     (let self = heap w ! this in
      if enc logLevel' \<le> enc (logLevel self) then
        (case metadata of
           JError e \<Rightarrow>
             impl_log (impl self)
               (\<lambda>t. \<lparr>c_impl = t, c_level = logLevel', c_group = group self, c_name = name self,
                     c_message = message, c_error = Some e,
                     c_metadata = spread (commonMetadata self)\<rparr>) w
         | _ \<Rightarrow>
             impl_log (impl self)
               (\<lambda>t. \<lparr>c_impl = t, c_level = logLevel', c_group = group self, c_name = name self,
                     c_message = message, c_error = error',
                     c_metadata = spread (commonMetadata self) ++ spread metadata\<rparr>) w)
      else (Fulfilled_undefined, w))"

definition trace :: "(LogLevel \<Rightarrow> nat) \<Rightarrow> ref \<Rightarrow> string \<Rightarrow> jsvalue \<Rightarrow> JsError option \<Rightarrow> world \<Rightarrow> log_result \<times> world" where
  "trace enc this message metadata error' w = log enc this TRACE message metadata error' w"

definition debug :: "(LogLevel \<Rightarrow> nat) \<Rightarrow> ref \<Rightarrow> string \<Rightarrow> jsvalue \<Rightarrow> JsError option \<Rightarrow> world \<Rightarrow> log_result \<times> world" where
  "debug enc this message metadata error' w = log enc this DEBUG message metadata error' w"

definition info :: "(LogLevel \<Rightarrow> nat) \<Rightarrow> ref \<Rightarrow> string \<Rightarrow> jsvalue \<Rightarrow> JsError option \<Rightarrow> world \<Rightarrow> log_result \<times> world" where
  "info enc this message metadata error' w = log enc this INFO message metadata error' w"

definition warn :: "(LogLevel \<Rightarrow> nat) \<Rightarrow> ref \<Rightarrow> string \<Rightarrow> jsvalue \<Rightarrow> JsError option \<Rightarrow> world \<Rightarrow> log_result \<times> world" where
  "warn enc this message metadata error' w = log enc this WARN message metadata error' w"

definition error :: "(LogLevel \<Rightarrow> nat) \<Rightarrow> ref \<Rightarrow> string \<Rightarrow> jsvalue \<Rightarrow> JsError option \<Rightarrow> world \<Rightarrow> log_result \<times> world" where
  "error enc this message metadata error' w = log enc this ERROR message metadata error' w"


section \<open>Logger factory\<close>

definition compoundKey :: "string \<Rightarrow> string \<Rightarrow> string" where
  "compoundKey group' name' = group' @ '':'' @ name'"

text \<open>The message built by \<open>initialize\<close> when more than one binding was found.\<close>

definition binding_line :: "LoggerBinding \<Rightarrow> string" where
  "binding_line b = getVendor b @ '' - '' @ getVersion b"

definition multiple_bindings_message :: "LoggerBinding list \<Rightarrow> LoggerBinding \<Rightarrow> string" where
  "multiple_bindings_message bs b =
     foldl (\<lambda>message binding. message @ [CHR 0x0A] @ ''  '' @ binding_line binding)
       ''multiple bindings found:'' bs
     @ [CHR 0x0A] @ ''  using '' @ binding_line b"

text \<open>
  \<open>getLogger\<close> and the private \<open>initialize\<close> call each other: \<open>getLogger\<close> sets
  \<open>INITIALIZED\<close> before it calls \<open>initialize\<close>, and \<open>initialize\<close> calls
  \<open>getLogger()\<close> with the default arguments for the root logger. An exception
  thrown by \<open>initialize\<close> leaves the assignments made before it in place.
\<close>

function getLogger :: "(LogLevel \<Rightarrow> nat) \<Rightarrow> string \<Rightarrow> string \<Rightarrow> world \<Rightarrow> (error + ref) \<times> world"
  and initialize :: "(LogLevel \<Rightarrow> nat) \<Rightarrow> world \<Rightarrow> (error + unit) \<times> world" where
  "getLogger enc group' name' w =
     (case (if \<not> INITIALIZED w then initialize enc (w\<lparr>INITIALIZED := True\<rparr>) else (Inr (), w)) of
        (Inl e, w1) \<Rightarrow> (Inl e, w1)
      | (Inr u, w1) \<Rightarrow>
          (case LOGGER_INSTANCE_CACHE w1 (compoundKey group' name') of
             Some cached \<Rightarrow> (Inr cached, w1)
           | None \<Rightarrow>
               (case new_DefaultLoggerInstance name' group'
                       (getLogLevel (config w1) group' name') (LOGGER w1) w1 of
                  (instance, w2) \<Rightarrow>
                    (Inr instance,
                     w2\<lparr>LOGGER_INSTANCE_CACHE :=
                          (LOGGER_INSTANCE_CACHE w2)(compoundKey group' name' \<mapsto> instance)\<rparr>))))"
| "initialize enc w =
     (case BINDING w of
        None \<Rightarrow> (Inl No_Logger_Binding_found, w)
      | Some b \<Rightarrow>
          (case getLogger enc [] []
                  (w\<lparr>LOGGER := Some (getLoggerImplementation b),
                     impl_requests := Suc (impl_requests w)\<rparr>) of
             (Inl e, w1) \<Rightarrow> (Inl e, w1)
           | (Inr root, w1) \<Rightarrow>
               (let w2 = w1\<lparr>ROOT_LOGGER := Some root\<rparr> in
                if length (BINDINGS w2) > 1 then
                  (Inr (), snd (info enc root (multiple_bindings_message (BINDINGS w2) b)
                                  JUndefined None w2))
                else (Inr (), w2))))"
  by pat_completeness auto
termination
  by (relation "measure (\<lambda>x. case x of
          Inl (enc, g, n, w) \<Rightarrow> (if INITIALIZED w then 0 else 2)
        | Inr (enc, w) \<Rightarrow> (if INITIALIZED w then 1 else 3))") auto

declare getLogger.simps [simp del] initialize.simps [simp del]

definition reset :: "bool \<Rightarrow> world \<Rightarrow> world" where
  "reset resetLoggerImplementation w =
     (let w1 = w\<lparr>LOGGER_INSTANCE_CACHE := Map.empty\<rparr> in
      if resetLoggerImplementation then w1\<lparr>INITIALIZED := False\<rparr> else w1)"


section \<open>Vocabulary of the properties\<close>

text \<open>The public leveled method that logs at a given level.\<close>

fun leveled ::
  "LogLevel \<Rightarrow> (LogLevel \<Rightarrow> nat) \<Rightarrow> ref \<Rightarrow> string \<Rightarrow> jsvalue \<Rightarrow> JsError option \<Rightarrow> world
     \<Rightarrow> log_result \<times> world" where
  "leveled TRACE = trace"
| "leveled DEBUG = debug"
| "leveled INFO = info"
| "leveled WARN = warn"
| "leveled ERROR = error"


text \<open>
  The statements of \<open>getLogger\<close> after the initialisation guard: return the
  cached instance of the compound key, or construct, cache and return a new one.
\<close>

definition cached_or_new :: "string \<Rightarrow> string \<Rightarrow> world \<Rightarrow> ref \<times> world" where
  "cached_or_new group' name' w =
     (case LOGGER_INSTANCE_CACHE w (compoundKey group' name') of
        Some cached \<Rightarrow> (cached, w)
      | None \<Rightarrow>
          (case new_DefaultLoggerInstance name' group'
                  (getLogLevel (config w) group' name') (LOGGER w) w of
             (instance, w2) \<Rightarrow>
               (instance,
                w2\<lparr>LOGGER_INSTANCE_CACHE :=
                     (LOGGER_INSTANCE_CACHE w2)(compoundKey group' name' \<mapsto> instance)\<rparr>)))"

text \<open>
  The world that \<open>initialize\<close> leaves behind when the first binding is \<open>b\<close>; the
  caller \<open>getLogger\<close> has set \<open>INITIALIZED\<close> before.
\<close>

definition after_initialize :: "(LogLevel \<Rightarrow> nat) \<Rightarrow> LoggerBinding \<Rightarrow> world \<Rightarrow> world" where
  "after_initialize enc b w =
     (let w0 = w\<lparr>INITIALIZED := True, LOGGER := Some (getLoggerImplementation b),
                 impl_requests := Suc (impl_requests w)\<rparr>;
          root = fst (cached_or_new [] [] w0);
          w2 = (snd (cached_or_new [] [] w0))\<lparr>ROOT_LOGGER := Some root\<rparr>
      in if length (BINDINGS w) > 1
         then snd (info enc root (multiple_bindings_message (BINDINGS w) b) JUndefined None w2)
         else w2)"

text \<open>The operations a client of the facade can perform, and runs of them.\<close>

datatype action =
    GetLogger string string
  | Reset bool
  | SetLogLevel LogLevel selector
  | SetMetadata ref jsvalue
  | LogCall LogLevel ref string jsvalue "JsError option"

fun perform :: "(LogLevel \<Rightarrow> nat) \<Rightarrow> action \<Rightarrow> world \<Rightarrow> world" where
  "perform enc (GetLogger g n) w = snd (getLogger enc g n w)"
| "perform enc (Reset b) w = reset b w"
| "perform enc (SetLogLevel l sel) w = setLogLevel l sel w"
| "perform enc (SetMetadata this md) w = setMetadata this md w"
| "perform enc (LogCall l this m md e) w = snd (leveled l enc this m md e w)"

fun run :: "(LogLevel \<Rightarrow> nat) \<Rightarrow> action list \<Rightarrow> world \<Rightarrow> world" where
  "run enc [] w = w"
| "run enc (a # as) w = run enc as (perform enc a w)"

fun is_reset :: "action \<Rightarrow> bool" where
  "is_reset (Reset b) = True"
| "is_reset _ = False"

text \<open>Every allocated instance has its three callbacks registered.\<close>

definition subscribed :: "world \<Rightarrow> bool" where
  "subscribed w =
     (\<forall>a < length (heap w).
        (Exact (group (heap w ! a)) (name (heap w ! a)), a) \<in> set (listeners (config w))
      \<and> (Group (group (heap w ! a)), a) \<in> set (listeners (config w))
      \<and> (Global, a) \<in> set (listeners (config w)))"

text \<open>Concrete bindings and worlds used to instantiate the theorems.\<close>

definition binding_A :: LoggerBinding where
  "binding_A = \<lparr>getVendor = ''A'', getVersion = ''1.0'', getLoggerImplementation = Impl 0\<rparr>"

definition binding_B :: LoggerBinding where
  "binding_B = \<lparr>getVendor = ''B'', getVersion = ''2.0'', getLoggerImplementation = Impl 1\<rparr>"

text \<open>
  A world with one instance for group g and name n at effective level DEBUG,
  bound to the implementation of \<open>binding_A\<close>, with common metadata \<open>{b: 2}\<close>.
\<close>

definition world_debug :: world where
  "world_debug =
     setMetadata 1 (JObject [''b'' \<mapsto> VNum 2])
       (snd (getLogger reverse_numeric ''g'' ''n''
          (setLogLevel DEBUG (Exact ''g'' ''n'') (module_load [binding_A]))))"

text \<open>
  The world after the first \<open>getLogger("a:b", "c")\<close> of a process with one binding.
\<close>

definition world_collision :: world where
  "world_collision = snd (getLogger reverse_numeric ''a:b'' ''c'' (module_load [binding_A]))"

text \<open>
  The world after the first \<open>getLogger("g", "n")\<close> of a process with one binding,
  and a run of operations without a reset.
\<close>

definition world_first :: world where
  "world_first = snd (getLogger reverse_numeric ''g'' ''n'' (module_load [binding_A]))"

definition actions_example :: "action list" where
  "actions_example = [SetLogLevel ERROR (Group ''g''), GetLogger ''h'' ''m'',
                      LogCall WARN 1 ''x'' JUndefined None]"

text \<open>
  The same world after a second binding has become visible to
  \<open>new LoggerBindings().getBindings()\<close>, ahead of the first one.
\<close>

definition world_late_binding :: world where
  "world_late_binding = world_first\<lparr>discoverable := [binding_B, binding_A]\<rparr>"

text \<open>
  The world after two calls of \<open>getLogger("g", "n")\<close> in a process without a
  binding: the first call throws, the second returns an instance.
\<close>

definition world_unbound :: world where
  "world_unbound =
     snd (getLogger reverse_numeric ''g'' ''n''
            (snd (getLogger reverse_numeric ''g'' ''n'' (module_load []))))"

text \<open>
  A process with two bindings whose global level was set to WARN before the
  first \<open>getLogger\<close>.
\<close>

definition world_warn :: world where
  "world_warn = setLogLevel WARN Global (module_load [binding_A, binding_B])"

section \<open>Basic facts\<close>

lemma leveled_log: "leveled L enc this m md e w = log enc this L m md e w"
  by (cases L) (simp_all add: trace_def debug_def info_def warn_def error_def)


lemma cached_or_new_fields:
  "INITIALIZED (snd (cached_or_new g n w)) = INITIALIZED w"
  "BINDINGS (snd (cached_or_new g n w)) = BINDINGS w"
  "LOGGER (snd (cached_or_new g n w)) = LOGGER w"
  "ROOT_LOGGER (snd (cached_or_new g n w)) = ROOT_LOGGER w"
  "impl_calls (snd (cached_or_new g n w)) = impl_calls w"
  "impl_requests (snd (cached_or_new g n w)) = impl_requests w"
  "discoverable (snd (cached_or_new g n w)) = discoverable w"
  "overrides (config (snd (cached_or_new g n w))) = overrides (config w)"
  by (simp_all add: cached_or_new_def new_DefaultLoggerInstance_def onLogLevelChanged_def Let_def
      split: option.splits)

lemma cached_or_new_cached:
  "LOGGER_INSTANCE_CACHE (snd (cached_or_new g n w)) (compoundKey g n) = Some (fst (cached_or_new g n w))"
  by (simp add: cached_or_new_def new_DefaultLoggerInstance_def Let_def split: option.splits)

lemma cached_or_new_hit:
  "LOGGER_INSTANCE_CACHE w (compoundKey g n) = Some a \<Longrightarrow> cached_or_new g n w = (a, w)"
  by (simp add: cached_or_new_def)

lemma log_fields:
  "INITIALIZED (snd (log enc this l m md e w)) = INITIALIZED w"
  "BINDINGS (snd (log enc this l m md e w)) = BINDINGS w"
  "LOGGER (snd (log enc this l m md e w)) = LOGGER w"
  "ROOT_LOGGER (snd (log enc this l m md e w)) = ROOT_LOGGER w"
  "LOGGER_INSTANCE_CACHE (snd (log enc this l m md e w)) = LOGGER_INSTANCE_CACHE w"
  "heap (snd (log enc this l m md e w)) = heap w"
  "config (snd (log enc this l m md e w)) = config w"
  "impl_requests (snd (log enc this l m md e w)) = impl_requests w"
  "discoverable (snd (log enc this l m md e w)) = discoverable w"
  by (simp_all add: log_def impl_log_def Let_def split: jsvalue.splits option.splits)

lemma getLogger_initialized:
  "INITIALIZED w \<Longrightarrow>
   getLogger enc g n w = (Inr (fst (cached_or_new g n w)), snd (cached_or_new g n w))"
  by (simp add: getLogger.simps cached_or_new_def split: option.splits prod.splits)

lemma getLogger_no_binding:
  "\<not> INITIALIZED w \<Longrightarrow> BINDINGS w = [] \<Longrightarrow>
   getLogger enc g n w = (Inl No_Logger_Binding_found, w\<lparr>INITIALIZED := True\<rparr>)"
  by (simp add: getLogger.simps initialize.simps BINDING_def)

lemma getLogger_first:
  assumes "\<not> INITIALIZED w" and "BINDINGS w = b # bs"
  shows "getLogger enc g n w =
     (Inr (fst (cached_or_new g n (after_initialize enc b w))),
      snd (cached_or_new g n (after_initialize enc b w)))"
proof -
  let ?w0 = "w\<lparr>INITIALIZED := True, LOGGER := Some (getLoggerImplementation b),
                 impl_requests := Suc (impl_requests w)\<rparr>"
  have root: "getLogger enc [] [] ?w0 = (Inr (fst (cached_or_new [] [] ?w0)), snd (cached_or_new [] [] ?w0))"
    by (rule getLogger_initialized) simp
  have init: "initialize enc (w\<lparr>INITIALIZED := True\<rparr>) = (Inr (), after_initialize enc b w)"
    using assms(2) root
    by (simp add: initialize.simps BINDING_def after_initialize_def Let_def cached_or_new_fields)
  show ?thesis
    using assms(1) init
    by (simp add: getLogger.simps cached_or_new_def split: option.splits prod.splits)
qed

lemma after_initialize_fields:
  "INITIALIZED (after_initialize enc b w)"
  "BINDINGS (after_initialize enc b w) = BINDINGS w"
  "LOGGER (after_initialize enc b w) = Some (getLoggerImplementation b)"
  "impl_requests (after_initialize enc b w) = Suc (impl_requests w)"
  "discoverable (after_initialize enc b w) = discoverable w"
  "overrides (config (after_initialize enc b w)) = overrides (config w)"
  by (simp_all add: after_initialize_def Let_def info_def log_fields cached_or_new_fields)

lemma getLogger_success:
  assumes "getLogger enc g n w = (Inr a, w1)"
  shows "INITIALIZED w1" and "LOGGER_INSTANCE_CACHE w1 (compoundKey g n) = Some a"
proof -
  have "INITIALIZED w1 \<and> LOGGER_INSTANCE_CACHE w1 (compoundKey g n) = Some a"
  proof (cases "INITIALIZED w")
    case True
    with assms show ?thesis
      by (auto simp: getLogger_initialized cached_or_new_fields cached_or_new_cached)
  next
    case False
    show ?thesis
    proof (cases "BINDINGS w")
      case Nil
      with False assms show ?thesis by (simp add: getLogger_no_binding)
    next
      case (Cons b bs)
      with False assms show ?thesis
        by (auto simp: getLogger_first cached_or_new_fields cached_or_new_cached after_initialize_fields)
    qed
  qed
  then show "INITIALIZED w1" and "LOGGER_INSTANCE_CACHE w1 (compoundKey g n) = Some a" by simp_all
qed

lemma getLogger_cached:
  "INITIALIZED w \<Longrightarrow> LOGGER_INSTANCE_CACHE w (compoundKey g n) = Some a \<Longrightarrow>
   getLogger enc g n w = (Inr a, w)"
  by (simp add: getLogger_initialized cached_or_new_hit)

section \<open>Concrete worlds\<close>

lemma world_debug_heap:
  "heap world_debug =
     [\<lparr>impl = Some (Impl 0), name = [], group = [], commonMetadata = JUndefined, logLevel = INFO\<rparr>,
      \<lparr>impl = Some (Impl 0), name = ''n'', group = ''g'',
       commonMetadata = JObject [''b'' \<mapsto> VNum 2], logLevel = DEBUG\<rparr>]"
  by (simp add: world_debug_def module_load_def setLogLevel_def getLogger_first [where b = binding_A and bs = "[]"]
      after_initialize_def cached_or_new_def compoundKey_def new_DefaultLoggerInstance_def
      onLogLevelChanged_def getLogLevel_def setMetadata_def binding_A_def Let_def)


lemma world_debug_inst:
  "impl (heap world_debug ! 1) = Some (Impl 0)"
  "getLogLevel_inst 1 world_debug = DEBUG"
  "commonMetadata (heap world_debug ! 1) = JObject [''b'' \<mapsto> VNum 2]"
  "group (heap world_debug ! 1) = ''g''"
  "name (heap world_debug ! 1) = ''n''"
  by (simp_all add: world_debug_heap getLogLevel_inst_def)

lemmas world_debug_inst_Suc = world_debug_inst [unfolded One_nat_def]

section \<open>Level check of the leveled methods\<close>



section \<open>Metadata of a forwarded call\<close>

text \<open>
  Claim C2. For a call that passes the level check on an instance with a bound
  implementation: when the metadata argument is an \<open>Error\<close>, the implementation
  receives it as the error and receives the common metadata alone as the bag;
  otherwise it receives the level, the group, the name, the message, the explicit
  error argument, and the bag that merges the common metadata with the metadata
  argument, where a key of the argument overrides the same key of the common
  metadata.
\<close>

theorem log_metadata_forwarding:
  assumes "enc L \<le> enc (getLogLevel_inst this w)" and "impl (heap w ! this) = Some t"
  shows "(\<forall>x. md = JError x \<longrightarrow>
            leveled L enc this m md e w =
              (Delegated \<lparr>c_impl = t, c_level = L, c_group = group (heap w ! this),
                          c_name = name (heap w ! this), c_message = m, c_error = Some x,
                          c_metadata = spread (commonMetadata (heap w ! this))\<rparr>,
               w\<lparr>impl_calls := impl_calls w @
                  [\<lparr>c_impl = t, c_level = L, c_group = group (heap w ! this),
                    c_name = name (heap w ! this), c_message = m, c_error = Some x,
                    c_metadata = spread (commonMetadata (heap w ! this))\<rparr>]\<rparr>))
       \<and> (\<not> instanceof_Error md \<longrightarrow>
            leveled L enc this m md e w =
              (Delegated \<lparr>c_impl = t, c_level = L, c_group = group (heap w ! this),
                          c_name = name (heap w ! this), c_message = m, c_error = e,
                          c_metadata = spread (commonMetadata (heap w ! this)) ++ spread md\<rparr>,
               w\<lparr>impl_calls := impl_calls w @
                  [\<lparr>c_impl = t, c_level = L, c_group = group (heap w ! this),
                    c_name = name (heap w ! this), c_message = m, c_error = e,
                    c_metadata = spread (commonMetadata (heap w ! this)) ++ spread md\<rparr>]\<rparr>))
       \<and> (\<forall>k. (spread (commonMetadata (heap w ! this)) ++ spread md) k =
                (case spread md k of
                   Some v \<Rightarrow> Some v
                 | None \<Rightarrow> spread (commonMetadata (heap w ! this)) k))"
  using assms
  by (cases md)
     (simp_all add: leveled_log log_def impl_log_def getLogLevel_inst_def Let_def map_add_def)

lemma merged_example:
  "[''b'' \<mapsto> VNum 2, ''a'' \<mapsto> VNum 1] = [''a'' \<mapsto> VNum 1, ''b'' \<mapsto> VNum 2]"
  by (rule ext) simp

theorem log_metadata_forwarding_witness:
  "reverse_numeric WARN \<le> reverse_numeric (getLogLevel_inst 1 world_debug)
   \<and> impl (heap world_debug ! 1) = Some (Impl 0)
   \<and> \<not> instanceof_Error (JObject [''a'' \<mapsto> VNum 1])
   \<and> fst (leveled WARN reverse_numeric 1 ''x'' (JObject [''a'' \<mapsto> VNum 1]) None world_debug) =
       Delegated \<lparr>c_impl = Impl 0, c_level = WARN, c_group = ''g'', c_name = ''n'',
                  c_message = ''x'', c_error = None,
                  c_metadata = [''a'' \<mapsto> VNum 1, ''b'' \<mapsto> VNum 2]\<rparr>
   \<and> fst (leveled WARN reverse_numeric 1 ''x'' (JError (JsError ''boom'')) None world_debug) =
       Delegated \<lparr>c_impl = Impl 0, c_level = WARN, c_group = ''g'', c_name = ''n'',
                  c_message = ''x'', c_error = Some (JsError ''boom''),
                  c_metadata = [''b'' \<mapsto> VNum 2]\<rparr>"
proof -
  have g: "reverse_numeric WARN \<le> reverse_numeric (getLogLevel_inst 1 world_debug)"
    by (simp add: world_debug_inst_Suc)
  show ?thesis
    using log_metadata_forwarding [OF g world_debug_inst(1), of "JObject [''a'' \<mapsto> VNum 1]" "''x''" None]
          log_metadata_forwarding [OF g world_debug_inst(1), of "JError (JsError ''boom'')" "''x''" None]
          g
    by (simp add: world_debug_inst_Suc merged_example)
qed

text \<open>
  Claim C10. For a forwarded call whose metadata argument is an \<open>Error\<close>, the
  implementation receives that \<open>Error\<close> in the error position, and the explicit
  error argument has no influence on the result or on the world: the call behaves
  as the same call without an error argument.
\<close>

theorem log_error_metadata_discards_error_argument:
  assumes "enc L \<le> enc (getLogLevel_inst this w)" and "impl (heap w ! this) = Some t"
  shows "leveled L enc this m (JError x) e w =
           (Delegated \<lparr>c_impl = t, c_level = L, c_group = group (heap w ! this),
                       c_name = name (heap w ! this), c_message = m, c_error = Some x,
                       c_metadata = spread (commonMetadata (heap w ! this))\<rparr>,
            w\<lparr>impl_calls := impl_calls w @
               [\<lparr>c_impl = t, c_level = L, c_group = group (heap w ! this),
                 c_name = name (heap w ! this), c_message = m, c_error = Some x,
                 c_metadata = spread (commonMetadata (heap w ! this))\<rparr>]\<rparr>)
       \<and> leveled L enc this m (JError x) e w = leveled L enc this m (JError x) None w"
  using assms
  by (simp add: leveled_log log_def impl_log_def getLogLevel_inst_def Let_def)

theorem log_error_metadata_discards_error_argument_witness:
  "reverse_numeric ERROR \<le> reverse_numeric (getLogLevel_inst 1 world_debug)
   \<and> impl (heap world_debug ! 1) = Some (Impl 0)
   \<and> fst (leveled ERROR reverse_numeric 1 ''x'' (JError (JsError ''first''))
            (Some (JsError ''second'')) world_debug) =
       Delegated \<lparr>c_impl = Impl 0, c_level = ERROR, c_group = ''g'', c_name = ''n'',
                  c_message = ''x'', c_error = Some (JsError ''first''),
                  c_metadata = [''b'' \<mapsto> VNum 2]\<rparr>
   \<and> leveled ERROR reverse_numeric 1 ''x'' (JError (JsError ''first''))
         (Some (JsError ''second'')) world_debug
     = leveled ERROR reverse_numeric 1 ''x'' (JError (JsError ''first'')) None world_debug"
proof -
  have g: "reverse_numeric ERROR \<le> reverse_numeric (getLogLevel_inst 1 world_debug)"
    by (simp add: world_debug_inst_Suc)
  note t = log_error_metadata_discards_error_argument
             [OF g world_debug_inst(1), of "''x''" "JsError ''first''" "Some (JsError ''second'')"]
  have c: "fst (leveled ERROR reverse_numeric 1 ''x'' (JError (JsError ''first''))
            (Some (JsError ''second'')) world_debug) =
       Delegated \<lparr>c_impl = Impl 0, c_level = ERROR, c_group = ''g'', c_name = ''n'',
                  c_message = ''x'', c_error = Some (JsError ''first''),
                  c_metadata = [''b'' \<mapsto> VNum 2]\<rparr>"
    unfolding conjunct1 [OF t] by (simp add: world_debug_inst_Suc)
  show ?thesis
    using g world_debug_inst(1) c conjunct2 [OF t] by blast
qed

section \<open>Initialisation without a binding\<close>

text \<open>
  Claim C4. When no binding was discovered and the factory is not initialised,
  \<open>getLogger\<close> fails with the error "No Logger Binding found"; the only change
  is that \<open>INITIALIZED\<close> is set, so no instance is allocated or cached.
\<close>

theorem getLogger_fails_without_binding:
  assumes "\<not> INITIALIZED w" and "BINDINGS w = []"
  shows "getLogger enc g n w = (Inl No_Logger_Binding_found, w\<lparr>INITIALIZED := True\<rparr>)
       \<and> heap (snd (getLogger enc g n w)) = heap w
       \<and> LOGGER_INSTANCE_CACHE (snd (getLogger enc g n w)) = LOGGER_INSTANCE_CACHE w"
  using assms by (simp add: getLogger_no_binding)

theorem getLogger_fails_without_binding_witness:
  "\<not> INITIALIZED (module_load []) \<and> BINDINGS (module_load []) = []
   \<and> fst (getLogger reverse_numeric ''g'' ''n'' (module_load [])) = Inl No_Logger_Binding_found
   \<and> heap (snd (getLogger reverse_numeric ''g'' ''n'' (module_load []))) = []
   \<and> LOGGER_INSTANCE_CACHE (snd (getLogger reverse_numeric ''g'' ''n'' (module_load []))) = Map.empty"
proof -
  have i: "\<not> INITIALIZED (module_load [])" and b: "BINDINGS (module_load []) = []"
    by (simp_all add: module_load_def)
  show ?thesis
    using getLogger_fails_without_binding [OF i b, of reverse_numeric "''g''" "''n''"] i b
    by (simp add: module_load_def)
qed

section \<open>Compound keys\<close>

text \<open>
  Claim C9. Two pairs with the same compound key \<open>group + ":" + name\<close> share one
  cache entry: after a successful \<open>getLogger\<close> for the first pair, \<open>getLogger\<close>
  for the second pair returns the same instance. The pairs ("a:b", "c") and
  ("a", "b:c") are such a case, and the instance returned for ("a", "b:c") stores
  the group "a:b" and the name "c".
\<close>

theorem getLogger_compound_key_collision:
  assumes "compoundKey g1 n1 = compoundKey g2 n2"
      and "getLogger enc g1 n1 w = (Inr a, w1)"
  shows "getLogger enc g2 n2 w1 = (Inr a, w1)"
  using getLogger_success [OF assms(2)] assms(1) by (simp add: getLogger_cached)

lemma world_collision_first:
  "getLogger reverse_numeric ''a:b'' ''c'' (module_load [binding_A]) = (Inr 1, world_collision)"
  "group (heap world_collision ! 1) = ''a:b''"
  "name (heap world_collision ! 1) = ''c''"
  by (simp_all add: world_collision_def module_load_def getLogger_first [where b = binding_A and bs = "[]"]
      after_initialize_def cached_or_new_def compoundKey_def new_DefaultLoggerInstance_def
      onLogLevelChanged_def getLogLevel_def binding_A_def Let_def)

theorem getLogger_compound_key_collision_witness:
  "compoundKey ''a:b'' ''c'' = compoundKey ''a'' ''b:c''
   \<and> (''a:b'', ''c'') \<noteq> (''a'', ''b:c'')
   \<and> getLogger reverse_numeric ''a:b'' ''c'' (module_load [binding_A]) = (Inr 1, world_collision)
   \<and> getLogger reverse_numeric ''a'' ''b:c'' world_collision = (Inr 1, world_collision)
   \<and> group (heap world_collision ! 1) = ''a:b'' \<and> name (heap world_collision ! 1) = ''c''"
proof -
  have k: "compoundKey ''a:b'' ''c'' = compoundKey ''a'' ''b:c''"
    by (simp add: compoundKey_def)
  show ?thesis
    using getLogger_compound_key_collision [OF k world_collision_first(1)] k world_collision_first
    by simp
qed



section \<open>The instance cache\<close>

lemma cached_or_new_miss:
  assumes "LOGGER_INSTANCE_CACHE w (compoundKey g n) = None"
  shows "cached_or_new g n w =
     (length (heap w),
      w\<lparr>heap := heap w @
            [\<lparr>impl = LOGGER w, name = n, group = g, commonMetadata = JUndefined,
              logLevel = getLogLevel (config w) g n\<rparr>],
        config := (config w)\<lparr>listeners := listeners (config w) @
            [(Exact g n, length (heap w)), (Group g, length (heap w)), (Global, length (heap w))]\<rparr>,
        LOGGER_INSTANCE_CACHE := (LOGGER_INSTANCE_CACHE w)(compoundKey g n \<mapsto> length (heap w))\<rparr>)"
  using assms
  by (simp add: cached_or_new_def new_DefaultLoggerInstance_def onLogLevelChanged_def Let_def)

lemma cached_or_new_keeps:
  "LOGGER_INSTANCE_CACHE w k = Some a \<Longrightarrow>
   LOGGER_INSTANCE_CACHE (snd (cached_or_new g n w)) k = Some a"
  by (cases "LOGGER_INSTANCE_CACHE w (compoundKey g n)")
     (auto simp: cached_or_new_miss cached_or_new_hit)

lemma getLogLevel_overrides:
  "overrides c = overrides c' \<Longrightarrow> getLogLevel c g n = getLogLevel c' g n"
  by (auto simp: getLogLevel_def split: option.splits)

lemma setLogLevel_fields:
  "INITIALIZED (setLogLevel l sel w) = INITIALIZED w"
  "BINDINGS (setLogLevel l sel w) = BINDINGS w"
  "LOGGER (setLogLevel l sel w) = LOGGER w"
  "LOGGER_INSTANCE_CACHE (setLogLevel l sel w) = LOGGER_INSTANCE_CACHE w"
  "listeners (config (setLogLevel l sel w)) = listeners (config w)"
  "impl_calls (setLogLevel l sel w) = impl_calls w"
  by (simp_all add: setLogLevel_def)

lemma setMetadata_fields:
  "INITIALIZED (setMetadata this md w) = INITIALIZED w"
  "BINDINGS (setMetadata this md w) = BINDINGS w"
  "LOGGER (setMetadata this md w) = LOGGER w"
  "LOGGER_INSTANCE_CACHE (setMetadata this md w) = LOGGER_INSTANCE_CACHE w"
  "config (setMetadata this md w) = config w"
  "impl_calls (setMetadata this md w) = impl_calls w"
  by (simp_all add: setMetadata_def)

lemma perform_keeps_cached:
  assumes "INITIALIZED w" and "LOGGER_INSTANCE_CACHE w k = Some a" and "\<not> is_reset x"
  shows "INITIALIZED (perform enc x w) \<and> LOGGER_INSTANCE_CACHE (perform enc x w) k = Some a"
proof (cases x)
  case (GetLogger g n)
  with assms show ?thesis
    by (simp add: getLogger_initialized cached_or_new_fields cached_or_new_keeps)
next
  case (Reset b)
  with assms show ?thesis by simp
next
  case (SetLogLevel l sel)
  with assms show ?thesis by (simp add: setLogLevel_fields)
next
  case (SetMetadata this md)
  with assms show ?thesis by (simp add: setMetadata_fields)
next
  case (LogCall l this m md e)
  with assms show ?thesis by (simp add: leveled_log log_fields)
qed

lemma run_keeps_cached:
  assumes "\<forall>x \<in> set acts. \<not> is_reset x"
      and "INITIALIZED w" and "LOGGER_INSTANCE_CACHE w k = Some a"
  shows "INITIALIZED (run enc acts w) \<and> LOGGER_INSTANCE_CACHE (run enc acts w) k = Some a"
  using assms
proof (induction acts arbitrary: w)
  case Nil
  then show ?case by simp
next
  case (Cons x xs)
  have "INITIALIZED (perform enc x w) \<and> LOGGER_INSTANCE_CACHE (perform enc x w) k = Some a"
    using Cons.prems by (intro perform_keeps_cached) simp_all
  with Cons show ?case by simp
qed

lemma reset_eq:
  "reset b w = w\<lparr>LOGGER_INSTANCE_CACHE := Map.empty, INITIALIZED := INITIALIZED w \<and> \<not> b\<rparr>"
  by (simp add: reset_def Let_def)

text \<open>What a successful getLogger returns when the cache is empty.\<close>

lemma info_fields:
  "heap (snd (info enc this m md e w)) = heap w"
  "config (snd (info enc this m md e w)) = config w"
  "LOGGER_INSTANCE_CACHE (snd (info enc this m md e w)) = LOGGER_INSTANCE_CACHE w"
  "LOGGER (snd (info enc this m md e w)) = LOGGER w"
  "ROOT_LOGGER (snd (info enc this m md e w)) = ROOT_LOGGER w"
  by (simp_all add: info_def log_fields)

lemma after_initialize_root:
  assumes "LOGGER_INSTANCE_CACHE w (compoundKey [] []) = None"
  shows "heap (after_initialize enc b w) =
           heap w @ [\<lparr>impl = Some (getLoggerImplementation b), name = [], group = [],
                      commonMetadata = JUndefined, logLevel = getLogLevel (config w) [] []\<rparr>]"
    and "LOGGER_INSTANCE_CACHE (after_initialize enc b w) =
           (LOGGER_INSTANCE_CACHE w)(compoundKey [] [] \<mapsto> length (heap w))"
    and "ROOT_LOGGER (after_initialize enc b w) = Some (length (heap w))"
    and "listeners (config (after_initialize enc b w)) = listeners (config w) @
            [(Exact [] [], length (heap w)), (Group [], length (heap w)), (Global, length (heap w))]"
proof -
  let ?w0 = "w\<lparr>INITIALIZED := True, LOGGER := Some (getLoggerImplementation b),
                 impl_requests := Suc (impl_requests w)\<rparr>"
  have miss: "LOGGER_INSTANCE_CACHE ?w0 (compoundKey [] []) = None" using assms by simp
  note c = cached_or_new_miss [OF miss]
  show "heap (after_initialize enc b w) =
           heap w @ [\<lparr>impl = Some (getLoggerImplementation b), name = [], group = [],
                      commonMetadata = JUndefined, logLevel = getLogLevel (config w) [] []\<rparr>]"
    by (simp add: after_initialize_def Let_def c info_fields getLogLevel_def)
  show "LOGGER_INSTANCE_CACHE (after_initialize enc b w) =
           (LOGGER_INSTANCE_CACHE w)(compoundKey [] [] \<mapsto> length (heap w))"
    by (simp add: after_initialize_def Let_def c info_fields)
  show "ROOT_LOGGER (after_initialize enc b w) = Some (length (heap w))"
    by (simp add: after_initialize_def Let_def c info_fields)
  show "listeners (config (after_initialize enc b w)) = listeners (config w) @
            [(Exact [] [], length (heap w)), (Group [], length (heap w)), (Global, length (heap w))]"
    by (simp add: after_initialize_def Let_def c info_fields)
qed

lemma compoundKey_inject: "compoundKey g n = compoundKey [] [] \<longleftrightarrow> g = [] \<and> n = []"
  by (cases g) (auto simp: compoundKey_def)

lemma cached_or_new_fresh:
  assumes "LOGGER_INSTANCE_CACHE w = Map.empty"
  shows "fst (cached_or_new g n w) = length (heap w)"
    and "heap (snd (cached_or_new g n w)) ! length (heap w) =
           \<lparr>impl = LOGGER w, name = n, group = g, commonMetadata = JUndefined,
            logLevel = getLogLevel (config w) g n\<rparr>"
    and "length (heap (snd (cached_or_new g n w))) = Suc (length (heap w))"
  using assms by (simp_all add: cached_or_new_miss)

lemma getLogger_after_reset:
  assumes "LOGGER_INSTANCE_CACHE w = Map.empty"
      and "getLogger enc g n w = (Inr a, w')"
  shows "length (heap w) \<le> a \<and> a < length (heap w')
       \<and> logLevel (heap w' ! a) = getLogLevel (config w) g n
       \<and> group (heap w' ! a) = g \<and> name (heap w' ! a) = n"
proof (cases "INITIALIZED w")
  case True
  with assms show ?thesis
    by (auto simp: getLogger_initialized cached_or_new_miss)
next
  case False
  show ?thesis
  proof (cases "BINDINGS w")
    case Nil
    with False assms show ?thesis by (simp add: getLogger_no_binding)
  next
    case (Cons b bs)
    let ?v = "after_initialize enc b w"
    have miss: "LOGGER_INSTANCE_CACHE w (compoundKey [] []) = None" using assms(1) by simp
    note r = after_initialize_root [OF miss, of enc b]
    have res: "a = fst (cached_or_new g n ?v)" "w' = snd (cached_or_new g n ?v)"
      using assms(2) False Cons by (simp_all add: getLogger_first)
    show ?thesis
    proof (cases "g = [] \<and> n = []")
      case True
      have hit: "LOGGER_INSTANCE_CACHE ?v (compoundKey [] []) = Some (length (heap w))"
        by (simp add: r)
      have "cached_or_new g n ?v = (length (heap w), ?v)"
        using True cached_or_new_hit [OF hit] by simp
      then show ?thesis
        using True by (simp add: res r)
    next
      case False
      then have m: "LOGGER_INSTANCE_CACHE ?v (compoundKey g n) = None"
        using assms(1) by (simp add: r compoundKey_inject)
      have lv: "getLogLevel (config ?v) g n = getLogLevel (config w) g n"
        by (rule getLogLevel_overrides) (simp add: after_initialize_fields)
      show ?thesis
        by (simp add: res cached_or_new_miss [OF m] r lv nth_append)
    qed
  qed
qed

text \<open>
  Claim C3. After a successful \<open>getLogger(group, name)\<close>, any run of operations
  without a reset leaves the pair cached: \<open>getLogger(group, name)\<close> returns the
  same reference again and changes nothing, so the cache never yields two
  instances for one pair. \<open>reset\<close> empties the cache, and a successful
  \<open>getLogger(group, name)\<close> after it returns an instance allocated by that very
  call, with the requested group and name and with the level that the registry
  resolves at that moment.
\<close>

theorem getLogger_cached_until_reset:
  assumes "getLogger enc g n w = (Inr a, w1)"
      and "\<forall>x \<in> set acts. \<not> is_reset x"
  shows "getLogger enc g n (run enc acts w1) = (Inr a, run enc acts w1)
       \<and> LOGGER_INSTANCE_CACHE (reset b (run enc acts w1)) = Map.empty
       \<and> (\<forall>a' w3. getLogger enc g n (reset b (run enc acts w1)) = (Inr a', w3) \<longrightarrow>
             length (heap (run enc acts w1)) \<le> a' \<and> a' < length (heap w3)
           \<and> logLevel (heap w3 ! a') = getLogLevel (config (run enc acts w1)) g n
           \<and> group (heap w3 ! a') = g \<and> name (heap w3 ! a') = n)"
proof -
  let ?w2 = "run enc acts w1"
  have kept: "INITIALIZED ?w2 \<and> LOGGER_INSTANCE_CACHE ?w2 (compoundKey g n) = Some a"
    using assms(2) getLogger_success [OF assms(1)] by (rule run_keeps_cached)
  then have again: "getLogger enc g n ?w2 = (Inr a, ?w2)"
    by (simp add: getLogger_cached)
  have cleared: "LOGGER_INSTANCE_CACHE (reset b ?w2) = Map.empty"
    by (simp add: reset_eq)
  have fresh: "length (heap ?w2) \<le> a' \<and> a' < length (heap w3)
           \<and> logLevel (heap w3 ! a') = getLogLevel (config ?w2) g n
           \<and> group (heap w3 ! a') = g \<and> name (heap w3 ! a') = n"
    if "getLogger enc g n (reset b ?w2) = (Inr a', w3)" for a' w3
    using getLogger_after_reset [OF cleared that] by (simp add: reset_eq)
  from again cleared fresh show ?thesis by blast
qed


lemma world_first_eq:
  "world_first =
     \<lparr>discoverable = [binding_A], BINDINGS = [binding_A], LOGGER = Some (Impl 0),
      ROOT_LOGGER = Some 0, INITIALIZED = True,
      LOGGER_INSTANCE_CACHE = ['':'' \<mapsto> 0, ''g:n'' \<mapsto> 1],
      heap = [\<lparr>impl = Some (Impl 0), name = [], group = [], commonMetadata = JUndefined,
               logLevel = INFO\<rparr>,
              \<lparr>impl = Some (Impl 0), name = ''n'', group = ''g'', commonMetadata = JUndefined,
               logLevel = INFO\<rparr>],
      config = \<lparr>overrides = Map.empty,
                listeners = [(Exact [] [], 0), (Group [], 0), (Global, 0),
                             (Exact ''g'' ''n'', 1), (Group ''g'', 1), (Global, 1)]\<rparr>,
      impl_requests = 1, impl_calls = []\<rparr>"
  by (simp add: world_first_def module_load_def getLogger_first [where b = binding_A and bs = "[]"]
      after_initialize_def cached_or_new_def compoundKey_def new_DefaultLoggerInstance_def
      onLogLevelChanged_def getLogLevel_def binding_A_def Let_def)

lemma world_first_getLogger:
  "getLogger reverse_numeric ''g'' ''n'' (module_load [binding_A]) = (Inr 1, world_first)"
proof -
  have "fst (getLogger reverse_numeric ''g'' ''n'' (module_load [binding_A])) = Inr 1"
    by (simp add: module_load_def getLogger_first [where b = binding_A and bs = "[]"]
      after_initialize_def cached_or_new_def compoundKey_def new_DefaultLoggerInstance_def
      onLogLevelChanged_def getLogLevel_def binding_A_def Let_def)
  then show ?thesis by (simp add: world_first_def prod_eq_iff)
qed

lemma run_example_eq:
  "run reverse_numeric actions_example world_first =
     \<lparr>discoverable = [binding_A], BINDINGS = [binding_A], LOGGER = Some (Impl 0),
      ROOT_LOGGER = Some 0, INITIALIZED = True,
      LOGGER_INSTANCE_CACHE = ['':'' \<mapsto> 0, ''g:n'' \<mapsto> 1, ''h:m'' \<mapsto> 2],
      heap = [\<lparr>impl = Some (Impl 0), name = [], group = [], commonMetadata = JUndefined,
               logLevel = INFO\<rparr>,
              \<lparr>impl = Some (Impl 0), name = ''n'', group = ''g'', commonMetadata = JUndefined,
               logLevel = ERROR\<rparr>,
              \<lparr>impl = Some (Impl 0), name = ''m'', group = ''h'', commonMetadata = JUndefined,
               logLevel = INFO\<rparr>],
      config = \<lparr>overrides = [Group ''g'' \<mapsto> ERROR],
                listeners = [(Exact [] [], 0), (Group [], 0), (Global, 0),
                             (Exact ''g'' ''n'', 1), (Group ''g'', 1), (Global, 1),
                             (Exact ''h'' ''m'', 2), (Group ''h'', 2), (Global, 2)]\<rparr>,
      impl_requests = 1, impl_calls = []\<rparr>"
  by (simp add: world_first_eq actions_example_def setLogLevel_def invoke_listener_def
      getLogger_initialized cached_or_new_def compoundKey_def new_DefaultLoggerInstance_def
      onLogLevelChanged_def getLogLevel_def Let_def warn_def log_def numeral_2_eq_2)


theorem getLogger_cached_until_reset_witness:
  "getLogger reverse_numeric ''g'' ''n'' (module_load [binding_A]) = (Inr 1, world_first)
   \<and> filter is_reset actions_example = []
   \<and> getLogger reverse_numeric ''g'' ''n'' (run reverse_numeric actions_example world_first)
       = (Inr 1, run reverse_numeric actions_example world_first)
   \<and> length (heap (run reverse_numeric actions_example world_first)) = 3
   \<and> fst (getLogger reverse_numeric ''g'' ''n''
            (reset False (run reverse_numeric actions_example world_first))) = Inr 3
   \<and> logLevel (heap (snd (getLogger reverse_numeric ''g'' ''n''
            (reset False (run reverse_numeric actions_example world_first)))) ! 3) = ERROR"
proof -
  let ?w2 = "run reverse_numeric actions_example world_first"
  let ?r = "getLogger reverse_numeric ''g'' ''n'' (reset False ?w2)"
  have na: "\<forall>x \<in> set actions_example. \<not> is_reset x"
    by (simp add: actions_example_def)
  note t = getLogger_cached_until_reset [OF world_first_getLogger na, of False]
  have len: "length (heap ?w2) = 3" by (simp add: run_example_eq)
  have lev: "getLogLevel (config ?w2) ''g'' ''n'' = ERROR"
    by (simp add: run_example_eq getLogLevel_def)
  have a': "fst ?r = Inr 3"
    by (simp add: run_example_eq reset_eq getLogger_initialized cached_or_new_def
        new_DefaultLoggerInstance_def Let_def)
  then have "?r = (Inr 3, snd ?r)" by (simp add: prod_eq_iff)
  with t have "logLevel (heap (snd ?r) ! 3) = getLogLevel (config ?w2) ''g'' ''n''"
    by blast
  moreover have "filter is_reset actions_example = []"
    by (simp add: actions_example_def)
  ultimately show ?thesis
    using t world_first_getLogger len lev a' by simp
qed

section \<open>Level changes reach the constructed instances\<close>

lemma invoke_listener_length: "length (invoke_listener l sel h cb) = length h"
  by (simp add: invoke_listener_def)

lemma invoke_listeners_length: "length (foldl (invoke_listener l sel) h ls) = length h"
  by (induction ls arbitrary: h) (simp_all add: invoke_listener_length)

lemma invoke_listener_static:
  "group (invoke_listener l sel h cb ! a) = group (h ! a)
   \<and> name (invoke_listener l sel h cb ! a) = name (h ! a)"
  by (cases "snd cb < length h")
     (simp_all add: invoke_listener_def nth_list_update list_update_beyond)

lemma invoke_listeners_static:
  "group (foldl (invoke_listener l sel) h ls ! a) = group (h ! a)
   \<and> name (foldl (invoke_listener l sel) h ls ! a) = name (h ! a)"
  by (induction ls arbitrary: h) (simp_all add: invoke_listener_static)

lemma invoke_listeners_keep_level:
  "a < length h \<Longrightarrow> logLevel (h ! a) = l \<Longrightarrow>
   logLevel (foldl (invoke_listener l sel) h ls ! a) = l"
proof (induction ls arbitrary: h)
  case Nil
  then show ?case by simp
next
  case (Cons cb cbs)
  have "logLevel (invoke_listener l sel h cb ! a) = l"
    using Cons.prems by (cases "snd cb = a") (simp_all add: invoke_listener_def)
  with Cons show ?case by (simp add: invoke_listener_length)
qed

lemma invoke_listeners_level:
  "a < length h \<Longrightarrow> (sel, a) \<in> set ls \<Longrightarrow>
   logLevel (foldl (invoke_listener l sel) h ls ! a) = l"
proof (induction ls arbitrary: h)
  case Nil
  then show ?case by simp
next
  case (Cons cb cbs)
  show ?case
  proof (cases "cb = (sel, a)")
    case True
    have "logLevel (invoke_listener l sel h cb ! a) = l"
      using True Cons.prems(1) by (simp add: invoke_listener_def)
    then show ?thesis
      using Cons.prems(1) by (simp add: invoke_listeners_keep_level invoke_listener_length)
  next
    case False
    with Cons.prems have "(sel, a) \<in> set cbs" by simp
    with Cons show ?thesis by (simp add: invoke_listener_length)
  qed
qed

lemma subscribed_cong:
  "heap w' = heap w \<Longrightarrow> listeners (config w') = listeners (config w) \<Longrightarrow>
   subscribed w' = subscribed w"
  by (simp add: subscribed_def)

lemma subscribed_cached_or_new: "subscribed w \<Longrightarrow> subscribed (snd (cached_or_new g n w))"
proof (cases "LOGGER_INSTANCE_CACHE w (compoundKey g n)")
  case None
  assume "subscribed w"
  then show ?thesis
    unfolding cached_or_new_miss [OF None] subscribed_def
    by (auto simp: nth_append less_Suc_eq)
next
  case (Some a)
  assume "subscribed w"
  then show ?thesis by (simp add: cached_or_new_hit [OF Some])
qed

lemma subscribed_after_initialize: "subscribed w \<Longrightarrow> subscribed (after_initialize enc b w)"
proof -
  assume s: "subscribed w"
  let ?w0 = "w\<lparr>INITIALIZED := True, LOGGER := Some (getLoggerImplementation b),
                 impl_requests := Suc (impl_requests w)\<rparr>"
  have "subscribed ?w0" using s by (simp add: subscribed_def)
  then have c: "subscribed (snd (cached_or_new [] [] ?w0))" by (rule subscribed_cached_or_new)
  have "subscribed (after_initialize enc b w) = subscribed (snd (cached_or_new [] [] ?w0))"
    by (rule subscribed_cong) (simp_all add: after_initialize_def Let_def info_fields)
  with c show ?thesis by simp
qed

lemma getLogger_eq:
  "getLogger enc g n w =
     (if INITIALIZED w then (Inr (fst (cached_or_new g n w)), snd (cached_or_new g n w))
      else case BINDINGS w of
             [] \<Rightarrow> (Inl No_Logger_Binding_found, w\<lparr>INITIALIZED := True\<rparr>)
           | b # bs \<Rightarrow> (Inr (fst (cached_or_new g n (after_initialize enc b w))),
                        snd (cached_or_new g n (after_initialize enc b w))))"
  by (simp add: getLogger_initialized getLogger_no_binding getLogger_first split: list.splits)

lemma subscribed_perform: "subscribed w \<Longrightarrow> subscribed (perform enc x w)"
proof (cases x)
  case (GetLogger g n)
  assume s: "subscribed w"
  have "subscribed (w\<lparr>INITIALIZED := True\<rparr>)" using s by (simp add: subscribed_def)
  with s GetLogger show ?thesis
    by (simp add: getLogger_eq subscribed_cached_or_new subscribed_after_initialize
        split: list.splits)
next
  case (Reset b)
  assume "subscribed w"
  with Reset show ?thesis by (simp add: reset_eq subscribed_def)
next
  case (SetLogLevel l sel)
  assume "subscribed w"
  with SetLogLevel show ?thesis
    by (simp add: subscribed_def setLogLevel_def invoke_listeners_length invoke_listeners_static)
next
  case (SetMetadata this md)
  assume "subscribed w"
  moreover have "group ((heap w)[this := (heap w ! this)\<lparr>commonMetadata := md\<rparr>] ! a) = group (heap w ! a)
    \<and> name ((heap w)[this := (heap w ! this)\<lparr>commonMetadata := md\<rparr>] ! a) = name (heap w ! a)" for a
    by (cases "this < length (heap w)") (simp_all add: nth_list_update list_update_beyond)
  ultimately show ?thesis
    using SetMetadata by (simp add: subscribed_def setMetadata_def)
next
  case (LogCall l this m md e)
  assume "subscribed w"
  with LogCall show ?thesis by (simp add: subscribed_def leveled_log log_fields)
qed

lemma subscribed_run: "subscribed w \<Longrightarrow> subscribed (run enc acts w)"
  by (induction acts arbitrary: w) (simp_all add: subscribed_perform)

lemma subscribed_module_load: "subscribed (module_load ds)"
  by (simp add: subscribed_def module_load_def)

text \<open>
  Claim C5. The constructor registers three callbacks for the new instance: for its
  exact (group, name) key, for its group, and globally. In every world reached
  from the loaded module by a run of operations, each allocated instance has
  these three callbacks registered; hence setting a level for its group, or
  globally, makes that level the effective level of the instance. This holds for
  every instance of the group, so in particular for the instances without an
  override of their own.
\<close>

theorem level_changes_reach_instances:
  assumes "w = run enc acts (module_load ds)" and "a < length (heap w)"
  shows "listeners (config (snd (new_DefaultLoggerInstance n g l0 i v))) =
           listeners (config v) @
             [(Exact g n, length (heap v)), (Group g, length (heap v)), (Global, length (heap v))]
       \<and> (Exact (group (heap w ! a)) (name (heap w ! a)), a) \<in> set (listeners (config w))
       \<and> (Group (group (heap w ! a)), a) \<in> set (listeners (config w))
       \<and> (Global, a) \<in> set (listeners (config w))
       \<and> getLogLevel_inst a (setLogLevel l (Group (group (heap w ! a))) w) = l
       \<and> getLogLevel_inst a (setLogLevel l Global w) = l"
proof -
  have s: "subscribed w"
    unfolding assms(1) by (intro subscribed_run subscribed_module_load)
  have c: "listeners (config (snd (new_DefaultLoggerInstance n g l0 i v))) =
           listeners (config v) @
             [(Exact g n, length (heap v)), (Group g, length (heap v)), (Global, length (heap v))]"
    by (simp add: new_DefaultLoggerInstance_def onLogLevelChanged_def Let_def)
  have m: "(Exact (group (heap w ! a)) (name (heap w ! a)), a) \<in> set (listeners (config w))"
          "(Group (group (heap w ! a)), a) \<in> set (listeners (config w))"
          "(Global, a) \<in> set (listeners (config w))"
    using s assms(2) by (simp_all add: subscribed_def)
  have g: "getLogLevel_inst a (setLogLevel l (Group (group (heap w ! a))) w) = l"
    using assms(2) m(2) by (simp add: getLogLevel_inst_def setLogLevel_def invoke_listeners_level)
  have u: "getLogLevel_inst a (setLogLevel l Global w) = l"
    using assms(2) m(3) by (simp add: getLogLevel_inst_def setLogLevel_def invoke_listeners_level)
  from c m g u show ?thesis by simp
qed


theorem level_changes_reach_instances_witness:
  "world_first = run reverse_numeric [GetLogger ''g'' ''n''] (module_load [binding_A])
   \<and> 1 < length (heap world_first)
   \<and> group (heap world_first ! 1) = ''g''
   \<and> getLogLevel_inst 1 world_first = INFO
   \<and> getLogLevel_inst 1 (setLogLevel ERROR (Group ''g'') world_first) = ERROR
   \<and> getLogLevel_inst 1 (setLogLevel TRACE Global world_first) = TRACE"
proof -
  have r: "world_first = run reverse_numeric [GetLogger ''g'' ''n''] (module_load [binding_A])"
    by (simp add: world_first_def)
  have b: "1 < length (heap world_first)" by (simp add: world_first_eq)
  have g: "group (heap world_first ! 1) = ''g''" by (simp add: world_first_eq)
  have i: "getLogLevel_inst 1 world_first = INFO" by (simp add: world_first_eq getLogLevel_inst_def)
  note t = level_changes_reach_instances [OF r b]
  have "getLogLevel_inst 1 (setLogLevel ERROR (Group ''g'') world_first) = ERROR"
    using t [of _ _ _ _ _ ERROR] g by simp
  moreover have "getLogLevel_inst 1 (setLogLevel TRACE Global world_first) = TRACE"
    using t [of _ _ _ _ _ TRACE] by simp
  ultimately show ?thesis using r b g i by simp
qed

section \<open>reset\<close>

text \<open>
  Claim C6 as stated fails: in \<open>world_late_binding\<close> the list a new discovery would
  return starts with \<open>binding_B\<close>, and after \<open>reset(true)\<close> the next \<open>getLogger\<close>
  still uses the list found at module load and the implementation of \<open>binding_A\<close>.
\<close>

theorem reset_discovery_counterexample:
  "discoverable (snd (getLogger reverse_numeric ''g'' ''n'' (reset True world_late_binding)))
     = [binding_B, binding_A]
   \<and> BINDINGS (snd (getLogger reverse_numeric ''g'' ''n'' (reset True world_late_binding)))
     = [binding_A]
   \<and> LOGGER (snd (getLogger reverse_numeric ''g'' ''n'' (reset True world_late_binding)))
     = Some (getLoggerImplementation binding_A)
   \<and> getLoggerImplementation binding_A \<noteq> getLoggerImplementation binding_B"
proof -
  have i: "\<not> INITIALIZED (reset True world_late_binding)"
    by (simp add: reset_eq)
  have b: "BINDINGS (reset True world_late_binding) = binding_A # []"
    by (simp add: reset_eq world_late_binding_def world_first_eq)
  have d: "discoverable (reset True world_late_binding) = [binding_B, binding_A]"
    by (simp add: reset_eq world_late_binding_def)
  show ?thesis
    by (simp add: getLogger_first [OF i b] cached_or_new_fields after_initialize_fields b d
        binding_A_def binding_B_def)
qed

text \<open>
  Claim C6, amended. \<open>reset(resetLoggerImplementation)\<close> always empties the instance
  cache and changes nothing else but \<open>INITIALIZED\<close>, which it clears when the
  argument is true. After \<open>reset(true)\<close> the next \<open>getLogger\<close> runs \<open>initialize\<close>
  again: it asks the first binding of \<open>BINDINGS\<close> for its implementation once more
  and creates a new root logger, while \<open>BINDINGS\<close> itself, computed at module load,
  stays as it is. After
  \<open>reset(false)\<close> on an initialised factory the implementation is not requested
  again.
\<close>

theorem reset_clears_cache_and_reinitializes:
  assumes "BINDINGS w = x # xs"
  shows "reset b w = w\<lparr>LOGGER_INSTANCE_CACHE := Map.empty, INITIALIZED := INITIALIZED w \<and> \<not> b\<rparr>
       \<and> INITIALIZED (snd (getLogger enc g n (reset True w)))
       \<and> LOGGER (snd (getLogger enc g n (reset True w))) = Some (getLoggerImplementation x)
       \<and> impl_requests (snd (getLogger enc g n (reset True w))) = Suc (impl_requests w)
       \<and> BINDINGS (snd (getLogger enc g n (reset True w))) = BINDINGS w
       \<and> discoverable (snd (getLogger enc g n (reset True w))) = discoverable w
       \<and> ROOT_LOGGER (snd (getLogger enc g n (reset True w))) = Some (length (heap w))
       \<and> (INITIALIZED w \<longrightarrow>
            impl_requests (snd (getLogger enc g n (reset False w))) = impl_requests w
          \<and> LOGGER (snd (getLogger enc g n (reset False w))) = LOGGER w)"
proof -
  have i: "\<not> INITIALIZED (reset True w)" by (simp add: reset_eq)
  have bs: "BINDINGS (reset True w) = x # xs" using assms by (simp add: reset_eq)
  have t: "INITIALIZED (snd (getLogger enc g n (reset True w)))
       \<and> LOGGER (snd (getLogger enc g n (reset True w))) = Some (getLoggerImplementation x)
       \<and> impl_requests (snd (getLogger enc g n (reset True w))) = Suc (impl_requests w)
       \<and> BINDINGS (snd (getLogger enc g n (reset True w))) = BINDINGS w
       \<and> discoverable (snd (getLogger enc g n (reset True w))) = discoverable w"
    by (simp add: getLogger_first [OF i bs] cached_or_new_fields after_initialize_fields)
       (simp add: reset_eq)
  have m: "LOGGER_INSTANCE_CACHE (reset True w) (compoundKey [] []) = None"
    by (simp add: reset_eq)
  have r: "ROOT_LOGGER (snd (getLogger enc g n (reset True w))) = Some (length (heap w))"
    by (simp add: getLogger_first [OF i bs] cached_or_new_fields after_initialize_root(3) [OF m])
       (simp add: reset_eq)
  have f: "impl_requests (snd (getLogger enc g n (reset False w))) = impl_requests w
          \<and> LOGGER (snd (getLogger enc g n (reset False w))) = LOGGER w" if "INITIALIZED w"
  proof -
    have "INITIALIZED (reset False w)" using that by (simp add: reset_eq)
    then show ?thesis
      by (simp add: getLogger_initialized cached_or_new_fields) (simp add: reset_eq)
  qed
  from t r f show ?thesis by (simp add: reset_eq)
qed

theorem reset_clears_cache_and_reinitializes_witness:
  "BINDINGS world_late_binding = [binding_A]
   \<and> INITIALIZED world_late_binding
   \<and> LOGGER_INSTANCE_CACHE (reset False world_late_binding) = Map.empty
   \<and> LOGGER_INSTANCE_CACHE (reset True world_late_binding) = Map.empty
   \<and> \<not> INITIALIZED (reset True world_late_binding)
   \<and> INITIALIZED (reset False world_late_binding)
   \<and> impl_requests world_late_binding = 1
   \<and> impl_requests (snd (getLogger reverse_numeric ''g'' ''n'' (reset True world_late_binding))) = 2
   \<and> impl_requests (snd (getLogger reverse_numeric ''g'' ''n'' (reset False world_late_binding))) = 1
   \<and> BINDINGS (snd (getLogger reverse_numeric ''g'' ''n'' (reset True world_late_binding)))
       = [binding_A]"
proof -
  have bs: "BINDINGS world_late_binding = binding_A # []"
    by (simp add: world_late_binding_def world_first_eq)
  have i: "INITIALIZED world_late_binding" "impl_requests world_late_binding = 1"
    by (simp_all add: world_late_binding_def world_first_eq)
  note t = reset_clears_cache_and_reinitializes [OF bs, of _ reverse_numeric "''g''" "''n''"]
  have c: "LOGGER_INSTANCE_CACHE (reset False world_late_binding) = Map.empty"
          "LOGGER_INSTANCE_CACHE (reset True world_late_binding) = Map.empty"
          "\<not> INITIALIZED (reset True world_late_binding)"
          "INITIALIZED (reset False world_late_binding)"
    using i by (simp_all add: conjunct1 [OF t])
  from conjunct2 [OF t] bs i c show ?thesis by simp
qed


section \<open>The configuration error\<close>

lemma world_unbound_eq:
  "world_unbound =
     \<lparr>discoverable = [], BINDINGS = [], LOGGER = None, ROOT_LOGGER = None, INITIALIZED = True,
      LOGGER_INSTANCE_CACHE = [''g:n'' \<mapsto> 0],
      heap = [\<lparr>impl = None, name = ''n'', group = ''g'', commonMetadata = JUndefined,
               logLevel = INFO\<rparr>],
      config = \<lparr>overrides = Map.empty,
                listeners = [(Exact ''g'' ''n'', 0), (Group ''g'', 0), (Global, 0)]\<rparr>,
      impl_requests = 0, impl_calls = []\<rparr>"
  by (simp add: world_unbound_def module_load_def getLogger_no_binding getLogger_initialized
      cached_or_new_def compoundKey_def new_DefaultLoggerInstance_def onLogLevelChanged_def
      getLogLevel_def Let_def)

text \<open>
  Claim C7. The claim says that a logging call never finds the facade without a
  bound backend, because the initialisation has failed before. The code does not
  keep this: in a process without a binding the first \<open>getLogger("g", "n")\<close>
  throws "No Logger Binding found" after \<open>INITIALIZED\<close> was set, so the second
  \<open>getLogger("g", "n")\<close> skips the initialisation and returns an instance whose
  \<open>impl\<close> is \<open>undefined\<close>; the call \<open>error("x")\<close> on that instance passes the
  level check and its promise rejects with a \<open>TypeError\<close>.
\<close>

theorem unbound_logger_log_call_rejects:
  "fst (getLogger reverse_numeric ''g'' ''n'' (module_load [])) = Inl No_Logger_Binding_found
   \<and> fst (getLogger reverse_numeric ''g'' ''n''
            (snd (getLogger reverse_numeric ''g'' ''n'' (module_load [])))) = Inr 0
   \<and> snd (getLogger reverse_numeric ''g'' ''n''
            (snd (getLogger reverse_numeric ''g'' ''n'' (module_load [])))) = world_unbound
   \<and> impl (heap world_unbound ! 0) = None
   \<and> reverse_numeric ERROR \<le> reverse_numeric (getLogLevel_inst 0 world_unbound)
   \<and> fst (error reverse_numeric 0 ''x'' JUndefined None world_unbound) = Rejected_TypeError"
proof -
  have "fst (getLogger reverse_numeric ''g'' ''n'' (module_load [])) = Inl No_Logger_Binding_found"
    by (simp add: module_load_def getLogger_no_binding)
  moreover have "fst (getLogger reverse_numeric ''g'' ''n''
            (snd (getLogger reverse_numeric ''g'' ''n'' (module_load [])))) = Inr 0"
    by (simp add: module_load_def getLogger_no_binding getLogger_initialized
      cached_or_new_def compoundKey_def new_DefaultLoggerInstance_def Let_def)
  moreover have "fst (error reverse_numeric 0 ''x'' JUndefined None world_unbound) = Rejected_TypeError"
    by (simp add: world_unbound_eq error_def log_def impl_log_def)
  ultimately show ?thesis
    by (simp add: world_unbound_def [symmetric]) (simp add: world_unbound_eq getLogLevel_inst_def)
qed

section \<open>More than one binding\<close>

lemma foldl_append_concat:
  "foldl (\<lambda>message x. message @ f x) a xs = a @ concat (map f xs)"
  by (induction xs arbitrary: a) simp_all

lemma multiple_bindings_message_eq:
  "multiple_bindings_message bs b =
     ''multiple bindings found:''
     @ concat (map (\<lambda>x. [CHR 0x0A] @ ''  '' @ getVendor x @ '' - '' @ getVersion x) bs)
     @ [CHR 0x0A] @ ''  using '' @ getVendor b @ '' - '' @ getVersion b"
  unfolding multiple_bindings_message_def binding_line_def
  by (simp only: foldl_append_concat append_assoc)

lemma getLogger_initialized_calls:
  "INITIALIZED v \<Longrightarrow> impl_calls (snd (getLogger enc g n v)) = impl_calls v"
  by (simp add: getLogger_initialized cached_or_new_fields)

lemma after_initialize_calls:
  assumes "LOGGER_INSTANCE_CACHE w (compoundKey [] []) = None"
  shows "impl_calls (after_initialize enc b w) =
     impl_calls w @
       (if 1 < length (BINDINGS w) \<and> enc INFO \<le> enc (getLogLevel (config w) [] [])
        then [\<lparr>c_impl = getLoggerImplementation b, c_level = INFO, c_group = [], c_name = [],
                c_message = multiple_bindings_message (BINDINGS w) b, c_error = None,
                c_metadata = Map.empty\<rparr>]
        else [])"
proof -
  let ?w0 = "w\<lparr>INITIALIZED := True, LOGGER := Some (getLoggerImplementation b),
                 impl_requests := Suc (impl_requests w)\<rparr>"
  have miss: "LOGGER_INSTANCE_CACHE ?w0 (compoundKey [] []) = None" using assms by simp
  show ?thesis
    by (simp add: after_initialize_def Let_def cached_or_new_miss [OF miss] info_def log_def
        impl_log_def getLogLevel_def)
qed

text \<open>
  Claim C8, amended. When more than one binding was discovered, the initialisation
  (run by \<open>getLogger\<close> on a factory that is not initialised and has no root logger
  cached, as after module load and after \<open>reset(true)\<close>)
  selects the first one as the implementation, creates the root logger for the
  empty group and name, and logs through its \<open>info\<close> method one message that
  lists the vendor and version of every binding in discovery order and names the
  selected one. The implementation receives exactly this one call when the
  level of the root logger admits INFO, and no call otherwise. A \<open>getLogger\<close> on an
  initialised factory sends nothing to the implementation.
\<close>

theorem multiple_bindings_message_via_root_logger:
  assumes "\<not> INITIALIZED w" and "BINDINGS w = b # b' # bs"
      and "LOGGER_INSTANCE_CACHE w (compoundKey [] []) = None"
  shows "LOGGER (snd (getLogger enc g n w)) = Some (getLoggerImplementation b)
       \<and> ROOT_LOGGER (snd (getLogger enc g n w)) = Some (length (heap w))
       \<and> heap (snd (getLogger enc g n w)) ! length (heap w) =
           \<lparr>impl = Some (getLoggerImplementation b), name = [], group = [],
            commonMetadata = JUndefined, logLevel = getLogLevel (config w) [] []\<rparr>
       \<and> impl_calls (snd (getLogger enc g n w)) =
           impl_calls w @
             (if enc INFO \<le> enc (getLogLevel (config w) [] [])
              then [\<lparr>c_impl = getLoggerImplementation b, c_level = INFO, c_group = [],
                      c_name = [], c_message = multiple_bindings_message (b # b' # bs) b,
                      c_error = None, c_metadata = Map.empty\<rparr>]
              else [])
       \<and> multiple_bindings_message (b # b' # bs) b =
           ''multiple bindings found:''
           @ concat (map (\<lambda>x. [CHR 0x0A] @ ''  '' @ getVendor x @ '' - '' @ getVersion x)
                       (b # b' # bs))
           @ [CHR 0x0A] @ ''  using '' @ getVendor b @ '' - '' @ getVersion b
       \<and> (\<forall>v. INITIALIZED v \<longrightarrow> impl_calls (snd (getLogger enc g n v)) = impl_calls v)"
proof -
  let ?v = "after_initialize enc b w"
  have res: "snd (getLogger enc g n w) = snd (cached_or_new g n ?v)"
    using assms(1,2) by (simp add: getLogger_first)
  note r = after_initialize_root [OF assms(3), of enc b]
  have l: "LOGGER (snd (getLogger enc g n w)) = Some (getLoggerImplementation b)"
    by (simp add: res cached_or_new_fields after_initialize_fields)
  have ro: "ROOT_LOGGER (snd (getLogger enc g n w)) = Some (length (heap w))"
    by (simp add: res cached_or_new_fields r)
  have h: "heap (snd (getLogger enc g n w)) ! length (heap w) =
           \<lparr>impl = Some (getLoggerImplementation b), name = [], group = [],
            commonMetadata = JUndefined, logLevel = getLogLevel (config w) [] []\<rparr>"
    by (cases "LOGGER_INSTANCE_CACHE ?v (compoundKey g n)")
       (simp_all add: res cached_or_new_miss cached_or_new_hit r nth_append)
  have c: "impl_calls (snd (getLogger enc g n w)) =
           impl_calls w @
             (if enc INFO \<le> enc (getLogLevel (config w) [] [])
              then [\<lparr>c_impl = getLoggerImplementation b, c_level = INFO, c_group = [],
                      c_name = [], c_message = multiple_bindings_message (b # b' # bs) b,
                      c_error = None, c_metadata = Map.empty\<rparr>]
              else [])"
    using assms(2) by (simp add: res cached_or_new_fields after_initialize_calls [OF assms(3)])
  have k: "\<forall>v. INITIALIZED v \<longrightarrow> impl_calls (snd (getLogger enc g n v)) = impl_calls v"
    by (simp add: getLogger_initialized_calls)
  from l ro h c multiple_bindings_message_eq [of "b # b' # bs" b] k show ?thesis
    by blast
qed


text \<open>
  Claim C8 as stated fails: in \<open>world_warn\<close> two bindings were discovered and the
  root logger resolves the level WARN, so the informational message is
  suppressed and the implementation receives no call.
\<close>

theorem multiple_bindings_message_counterexample:
  "\<not> INITIALIZED world_warn
   \<and> BINDINGS world_warn = [binding_A, binding_B]
   \<and> getLogLevel (config world_warn) [] [] = WARN
   \<and> fst (getLogger reverse_numeric ''g'' ''n'' world_warn) = Inr 1
   \<and> LOGGER (snd (getLogger reverse_numeric ''g'' ''n'' world_warn)) = Some (Impl 0)
   \<and> impl_calls (snd (getLogger reverse_numeric ''g'' ''n'' world_warn)) = []"
proof -
  have i: "\<not> INITIALIZED world_warn"
    and b: "BINDINGS world_warn = binding_A # [binding_B]"
    and l: "getLogLevel (config world_warn) [] [] = WARN"
    and m: "LOGGER_INSTANCE_CACHE world_warn (compoundKey [] []) = None"
    and c: "impl_calls world_warn = []" and h: "heap world_warn = []"
    and e: "LOGGER_INSTANCE_CACHE world_warn = Map.empty"
    by (simp_all add: world_warn_def setLogLevel_def module_load_def getLogLevel_def)
  have m2: "LOGGER_INSTANCE_CACHE (after_initialize reverse_numeric binding_A world_warn)
              (compoundKey ''g'' ''n'') = None"
    by (simp add: after_initialize_root(2) [OF m] e compoundKey_def)
  have r: "fst (getLogger reverse_numeric ''g'' ''n'' world_warn) = Inr 1"
    by (simp add: getLogger_first [OF i b] cached_or_new_miss [OF m2]
        after_initialize_root(1) [OF m] h)
  have "impl_calls (snd (getLogger reverse_numeric ''g'' ''n'' world_warn)) = []"
    by (simp add: getLogger_first [OF i b] cached_or_new_fields after_initialize_calls [OF m] l c)
  moreover have "LOGGER (snd (getLogger reverse_numeric ''g'' ''n'' world_warn)) = Some (Impl 0)"
    by (simp add: getLogger_first [OF i b] cached_or_new_fields after_initialize_fields
        binding_A_def)
  ultimately show ?thesis using i b l r by simp
qed

theorem multiple_bindings_message_via_root_logger_witness:
  "\<not> INITIALIZED (module_load [binding_A, binding_B])
   \<and> BINDINGS (module_load [binding_A, binding_B]) = [binding_A, binding_B]
   \<and> LOGGER_INSTANCE_CACHE (module_load [binding_A, binding_B]) (compoundKey [] []) = None
   \<and> reverse_numeric INFO
        \<le> reverse_numeric (getLogLevel (config (module_load [binding_A, binding_B])) [] [])
   \<and> LOGGER (snd (getLogger reverse_numeric ''g'' ''n'' (module_load [binding_A, binding_B])))
       = Some (Impl 0)
   \<and> ROOT_LOGGER (snd (getLogger reverse_numeric ''g'' ''n'' (module_load [binding_A, binding_B])))
       = Some 0
   \<and> impl_calls (snd (getLogger reverse_numeric ''g'' ''n'' (module_load [binding_A, binding_B])))
       = [\<lparr>c_impl = Impl 0, c_level = INFO, c_group = [], c_name = [],
           c_message = ''multiple bindings found:'' @ [CHR 0x0A] @ ''  A - 1.0''
                       @ [CHR 0x0A] @ ''  B - 2.0'' @ [CHR 0x0A] @ ''  using A - 1.0'',
           c_error = None, c_metadata = Map.empty\<rparr>]
   \<and> INITIALIZED world_first
   \<and> impl_calls (snd (getLogger reverse_numeric ''h'' ''m'' world_first)) = impl_calls world_first"
proof -
  let ?w = "module_load [binding_A, binding_B]"
  have i: "\<not> INITIALIZED ?w" and b: "BINDINGS ?w = binding_A # binding_B # []"
    and m: "LOGGER_INSTANCE_CACHE ?w (compoundKey [] []) = None"
    and l: "reverse_numeric INFO \<le> reverse_numeric (getLogLevel (config ?w) [] [])"
    and c: "impl_calls ?w = []" and h: "heap ?w = []"
    by (simp_all add: module_load_def getLogLevel_def)
  have f: "INITIALIZED world_first" by (simp add: world_first_eq)
  note t = multiple_bindings_message_via_root_logger [OF i b m, of reverse_numeric]
  have msg: "multiple_bindings_message [binding_A, binding_B] binding_A =
               ''multiple bindings found:'' @ [CHR 0x0A] @ ''  A - 1.0''
                       @ [CHR 0x0A] @ ''  B - 2.0'' @ [CHR 0x0A] @ ''  using A - 1.0''"
    by (simp add: multiple_bindings_message_def binding_line_def binding_A_def binding_B_def)
  have g: "getLoggerImplementation binding_A = Impl 0" by (simp add: binding_A_def)
  have "impl_calls (snd (getLogger reverse_numeric ''h'' ''m'' world_first)) = impl_calls world_first"
    using t [of "''h''" "''m''"] f by blast
  moreover have "impl_calls (snd (getLogger reverse_numeric ''g'' ''n'' ?w))
       = [\<lparr>c_impl = Impl 0, c_level = INFO, c_group = [], c_name = [],
           c_message = ''multiple bindings found:'' @ [CHR 0x0A] @ ''  A - 1.0''
                       @ [CHR 0x0A] @ ''  B - 2.0'' @ [CHR 0x0A] @ ''  using A - 1.0'',
           c_error = None, c_metadata = Map.empty\<rparr>]"
    using t [of "''g''" "''n''"] l c msg g by simp
  moreover have "LOGGER (snd (getLogger reverse_numeric ''g'' ''n'' ?w)) = Some (Impl 0)"
    using t [of "''g''" "''n''"] g by simp
  moreover have "ROOT_LOGGER (snd (getLogger reverse_numeric ''g'' ''n'' ?w)) = Some 0"
    using t [of "''g''" "''n''"] h by simp
  ultimately show ?thesis using i b m l f by simp
qed


end
